theory Spec2Isabelle
  imports Main "HOL-Library.Multiset"
begin

section \<open>Rows of the relational store\<close>

text \<open>
  The handlers of \<^verbatim>\<open>src/tournament.py\<close> work on ORM rows whose classes live in a module
  that is not part of the sources at hand. Each row class is a record holding the columns the
  handlers read or write. Primary keys are natural numbers, scores and ranking positions are
  integers, a nullable column is an \<open>option\<close>, and a timestamp is a clock reading.
\<close>

type_synonym date = "nat \<times> nat \<times> nat"

record atleta =
  a_id :: nat
  a_nome :: string
  a_email :: string
  a_data_nascimento :: "date option"
  a_altura :: "int option"
  a_peso :: "int option"
  a_pais :: "string option"
  a_foto_url :: "string option"
  a_categoria :: "string option"
  a_ranking_posicao :: "int option"
  a_ativo :: bool

record inscricao =
  i_id :: nat
  i_torneio_id :: nat
  i_categoria_id :: nat
  i_atleta_id :: nat
  i_parceiro_id :: "nat option"
  i_nome_equipe :: "string option"
  i_status :: string

record jogo =
  j_id :: nat
  j_torneio_id :: nat
  j_categoria_id :: nat
  j_fase :: string
  j_rodada :: nat
  j_equipe1_id :: nat
  j_equipe2_id :: nat
  j_placar_equipe1 :: "int option"
  j_placar_equipe2 :: "int option"
  j_status :: string
  j_observacoes :: "string option"

text \<open>
  The bracket row stores \<^verbatim>\<open>json.dumps(estrutura)\<close>; the model keeps the dictionary
  itself, which the serialised text determines.
\<close>

record estrutura =
  e_participantes :: "inscricao list"
  e_fases :: "string list"
  e_tipo :: string

record chaveamento =
  c_id :: nat
  c_torneio_id :: nat
  c_categoria_id :: nat
  c_estrutura_json :: estrutura
  c_data_atualizacao :: "nat option"

text \<open>The tables, each in insertion order.\<close>

record store =
  atletas :: "atleta list"
  inscricoes :: "inscricao list"
  jogos :: "jogo list"
  chaveamentos :: "chaveamento list"

text \<open>
  Column defaults are declared with the row classes, so the handlers take them as a
  parameter: they fill the columns a constructor call leaves out.
\<close>

record column_defaults =
  atleta_ranking_posicao_default :: "int option"
  atleta_ativo_default :: bool
  inscricao_status_default :: string
  jogo_status_default :: string
  chaveamento_data_atualizacao_default :: "nat option"

section \<open>Requests, exceptions and responses\<close>

text \<open>
  Every handler body runs inside \<^verbatim>\<open>try: ... except Exception as e\<close>. What the body can
  raise is a value of \<open>exn\<close>. \<open>NotFound\<close> is the HTTP exception that
  \<^verbatim>\<open>get_or_404\<close> raises through \<^verbatim>\<open>abort(404)\<close>; it is a subclass of
  \<^verbatim>\<open>Exception\<close> like the others. \<open>OverflowError\<close> is what the database driver raises
  for an integer it cannot bind to a statement, \<open>DatabaseError\<close> what the engine raises for
  a statement it rejects.
\<close>

datatype exn = KeyError string | ValueError | NotFound | OverflowError | DatabaseError

datatype body =
    Error_msg string
  | Error_exn exn
  | Atleta_body atleta
  | Atletas_body "atleta list" nat nat int
  | Ranking_body "atleta list" string
  | Chaveamento_body chaveamento
  | Chaveamento_jogos_body chaveamento "jogo list"
  | Jogo_body jogo
  | Inscricao_body inscricao

type_synonym response = "nat \<times> body"

text \<open>
  A query-string argument read as \<^verbatim>\<open>int(request.args.get(k, d))\<close>: the key is absent
  and the default is taken, or its text parses to an integer, or \<^verbatim>\<open>int\<close> raises
  \<^verbatim>\<open>ValueError\<close>.
\<close>

datatype int_arg = Absent | Parsed int | Malformed

definition int_of_arg :: "int_arg \<Rightarrow> int \<Rightarrow> exn + int" where
  "int_of_arg a d = (case a of Absent \<Rightarrow> Inr d | Parsed n \<Rightarrow> Inr n | Malformed \<Rightarrow> Inl ValueError)"

text \<open>Python's truth value of an optional string: \<^verbatim>\<open>None\<close> and \<^verbatim>\<open>''\<close> are false.\<close>

definition truthy :: "string option \<Rightarrow> bool" where
  "truthy a = (case a of None \<Rightarrow> False | Some v \<Rightarrow> v \<noteq> [])"

text \<open>\<^verbatim>\<open>a or d\<close> on an optional string.\<close>

definition or_else :: "string option \<Rightarrow> string \<Rightarrow> string" where
  "or_else a d = (case a of None \<Rightarrow> d | Some v \<Rightarrow> if v = [] then d else v)"

text \<open>\<^verbatim>\<open>query.first()\<close>: the first row of the result, or \<^verbatim>\<open>None\<close>.\<close>

definition first :: "'a list \<Rightarrow> 'a option" where
  "first xs = (case xs of [] \<Rightarrow> None | x # _ \<Rightarrow> Some x)"

text \<open>The key the store gives to an inserted row: one more than the largest key in use.\<close>

definition next_id :: "nat list \<Rightarrow> nat" where
  "next_id ids = Suc (fold max ids 0)"

text \<open>
  \<^verbatim>\<open>except Exception as e: db.session.rollback(); return jsonify({'error': str(e)}), 500\<close>:
  whatever the body raised, the store is the one the request started with.
\<close>

definition handle :: "store \<Rightarrow> exn + (response \<times> store) \<Rightarrow> response \<times> store" where
  "handle s r = (case r of Inl e \<Rightarrow> ((500, Error_exn e), s) | Inr x \<Rightarrow> x)"

definition handle_get :: "exn + response \<Rightarrow> response" where
  "handle_get r = (case r of Inl e \<Rightarrow> (500, Error_exn e) | Inr x \<Rightarrow> x)"

section \<open>The database engine\<close>

text \<open>
  The engine is configured outside the handlers, so it is a parameter. Two things about it
  reach the handlers. A negative \<^verbatim>\<open>LIMIT\<close> either means no limit or is rejected. And the
  driver refuses some integers: every integer of a request that a statement carries is bound
  as a parameter when the statement runs, and an integer the driver refuses raises there.
  SQLite reads a negative limit as no limit, and its driver refuses the integers outside the
  signed 64-bit range.
\<close>

record engine =
  negative_limit_unbounded :: bool
  int_overflow :: "int \<Rightarrow> bool"

definition binds :: "engine \<Rightarrow> int list \<Rightarrow> bool" where
  "binds eng ns = list_all (\<lambda>n. \<not> int_overflow eng n) ns"

fun presentes :: "'a option list \<Rightarrow> 'a list" where
  "presentes [] = []"
| "presentes (None # vs) = presentes vs"
| "presentes (Some v # vs) = v # presentes vs"

definition sqlite :: engine where
  "sqlite = \<lparr>negative_limit_unbounded = True,
             int_overflow = (\<lambda>n. n < - 9223372036854775808 \<or> 9223372036854775807 < n)\<rparr>"

section \<open>Athletes\<close>

text \<open>
  \<^verbatim>\<open>order_by(Atleta.ranking_posicao.asc().nullslast())\<close>: ascending positions, rows
  without a position last. Rows with equal keys keep their table order.
\<close>

definition ranking_le :: "int option \<Rightarrow> int option \<Rightarrow> bool" where
  "ranking_le p q =
     (case q of None \<Rightarrow> True
      | Some y \<Rightarrow> (case p of None \<Rightarrow> False | Some x \<Rightarrow> x \<le> y))"

fun insert_by_ranking :: "atleta \<Rightarrow> atleta list \<Rightarrow> atleta list" where
  "insert_by_ranking a [] = [a]"
| "insert_by_ranking a (b # bs) =
     (if ranking_le (a_ranking_posicao a) (a_ranking_posicao b) then a # b # bs
      else b # insert_by_ranking a bs)"

definition order_by_ranking :: "atleta list \<Rightarrow> atleta list" where
  "order_by_ranking xs = foldr insert_by_ranking xs []"

text \<open>
  \<^verbatim>\<open>query.paginate(page=page, per_page=per_page, error_out=False)\<close> of the framework:
  a page below 1 becomes 1, a page size below 1 becomes 20, an optional cap bounds the page
  size, and the items are the slice of the result at that page, fetched by a statement that
  carries the page size as its limit and the number of rows before the page as its offset.
  The cap is a setting of the framework, taken as a parameter.
\<close>

record 'a pagination =
  p_items :: "'a list"
  p_total :: nat
  p_pages :: nat

definition paginate ::
  "engine \<Rightarrow> int option \<Rightarrow> int \<Rightarrow> int \<Rightarrow> 'a list \<Rightarrow> exn + 'a pagination" where
  "paginate eng max_per_page page per_page rows =
     (let per_page1 = (case max_per_page of None \<Rightarrow> per_page | Some m \<Rightarrow> min per_page m);
          page2 = (if page < 1 then 1 else page);
          per_page2 = (if per_page1 < 1 then 20 else per_page1);
          total = length rows
      in if \<not> binds eng [per_page2, (page2 - 1) * per_page2] then Inl OverflowError
         else Inr \<lparr>p_items = take (nat per_page2) (drop (nat ((page2 - 1) * per_page2)) rows),
                   p_total = total,
                   p_pages = (total + nat per_page2 - 1) div nat per_page2\<rparr>)"

definition get_atletas ::
  "engine \<Rightarrow> int option \<Rightarrow> string option \<Rightarrow> string option \<Rightarrow> int_arg \<Rightarrow> int_arg \<Rightarrow> store
     \<Rightarrow> response" where
  "get_atletas eng max_per_page categoria pais page_arg per_page_arg s =
     handle_get
       (case int_of_arg page_arg 1 of Inl e \<Rightarrow> Inl e
        | Inr page \<Rightarrow>
       (case int_of_arg per_page_arg 20 of Inl e \<Rightarrow> Inl e
        | Inr per_page \<Rightarrow>
          (let query0 = filter a_ativo (atletas s);
               query1 = (if truthy categoria
                         then filter (\<lambda>a. a_categoria a = categoria) query0 else query0);
               query2 = (if truthy pais
                         then filter (\<lambda>a. a_pais a = pais) query1 else query1);
               query3 = order_by_ranking query2
           in (case paginate eng max_per_page page per_page query3 of Inl e \<Rightarrow> Inl e
               | Inr pg \<Rightarrow>
                   Inr (200, Atletas_body (p_items pg) (p_total pg) (p_pages pg) page)))))"

text \<open>
  The request body of \<^verbatim>\<open>POST /atletas\<close>: a JSON object, each key present or not. A
  key that is present carries a value of the column's kind, text or an integer; for the
  optional keys, which the handler reads with \<^verbatim>\<open>data.get\<close>, a missing key and
  \<^verbatim>\<open>null\<close> are the same.
\<close>

record atleta_data =
  d_nome :: "string option"
  d_email :: "string option"
  d_data_nascimento :: "string option"
  d_altura :: "int option"
  d_peso :: "int option"
  d_pais :: "string option"
  d_foto_url :: "string option"
  d_categoria :: "string option"

text \<open>
  \<^verbatim>\<open>datetime.strptime(text, '%Y-%m-%d').date()\<close> is a parameter: it yields a date or
  raises \<^verbatim>\<open>ValueError\<close>.
\<close>

definition parse_data_nascimento ::
  "(string \<Rightarrow> date option) \<Rightarrow> string option \<Rightarrow> exn + date option" where
  "parse_data_nascimento strptime v =
     (case v of None \<Rightarrow> Inr None
      | Some txt \<Rightarrow>
          if txt = [] then Inr None
          else (case strptime txt of None \<Rightarrow> Inl ValueError | Some d \<Rightarrow> Inr (Some d)))"

definition create_atleta ::
  "engine \<Rightarrow> column_defaults \<Rightarrow> (string \<Rightarrow> date option) \<Rightarrow> atleta_data \<Rightarrow> store
     \<Rightarrow> response \<times> store" where
  "create_atleta eng dflt strptime data s =
     handle s
       (case d_email data of None \<Rightarrow> Inl (KeyError ''email'')
        | Some email \<Rightarrow>
            if first (filter (\<lambda>a. a_email a = email) (atletas s)) \<noteq> None
            then Inr ((400, Error_msg (''Email j'' @ [CHR 0xE1] @ '' cadastrado'')), s)
            else
              (case d_nome data of None \<Rightarrow> Inl (KeyError ''nome'')
               | Some nome \<Rightarrow>
              (case parse_data_nascimento strptime (d_data_nascimento data) of
                 Inl e \<Rightarrow> Inl e
               | Inr nascimento \<Rightarrow>
                  (let atleta = \<lparr>a_id = next_id (map a_id (atletas s)),
                                  a_nome = nome,
                                  a_email = email,
                                  a_data_nascimento = nascimento,
                                  a_altura = d_altura data,
                                  a_peso = d_peso data,
                                  a_pais = d_pais data,
                                  a_foto_url = d_foto_url data,
                                  a_categoria = d_categoria data,
                                  a_ranking_posicao = atleta_ranking_posicao_default dflt,
                                  a_ativo = atleta_ativo_default dflt\<rparr>
                   in if \<not> binds eng (presentes [d_altura data, d_peso data])
                      then Inl OverflowError
                      else Inr ((201, Atleta_body atleta),
                                s\<lparr>atletas := atletas s @ [atleta]\<rparr>)))))"

text \<open>
  \<^verbatim>\<open>query.limit(n)\<close> is the \<^verbatim>\<open>LIMIT\<close> clause of the database, its bound passed as
  a parameter. The driver binds the bound first; for a negative bound the engines differ: one
  family returns every row, the other rejects the statement.
\<close>

definition sql_limit :: "engine \<Rightarrow> int \<Rightarrow> 'a list \<Rightarrow> exn + 'a list" where
  "sql_limit eng n rows =
     (if \<not> binds eng [n] then Inl OverflowError
      else if 0 \<le> n then Inr (take (nat n) rows)
      else if negative_limit_unbounded eng then Inr rows
      else Inl DatabaseError)"

definition get_ranking :: "engine \<Rightarrow> string option \<Rightarrow> int_arg \<Rightarrow> store \<Rightarrow> response" where
  "get_ranking eng categoria limit_arg s =
     handle_get
       (case int_of_arg limit_arg 50 of Inl e \<Rightarrow> Inl e
        | Inr limit \<Rightarrow>
          (let query0 = filter a_ativo (atletas s);
               query1 = (if truthy categoria
                         then filter (\<lambda>a. a_categoria a = categoria) query0 else query0)
           in (case sql_limit eng limit (order_by_ranking query1) of Inl e \<Rightarrow> Inl e
               | Inr rows \<Rightarrow> Inr (200, Ranking_body rows (or_else categoria ''Geral'')))))"

section \<open>Brackets\<close>

definition chaveamentos_do_par :: "nat \<Rightarrow> nat \<Rightarrow> store \<Rightarrow> chaveamento list" where
  "chaveamentos_do_par torneio_id categoria_id s =
     filter (\<lambda>c. c_torneio_id c = torneio_id \<and> c_categoria_id c = categoria_id) (chaveamentos s)"

definition jogos_do_par :: "nat \<Rightarrow> nat \<Rightarrow> store \<Rightarrow> jogo list" where
  "jogos_do_par torneio_id categoria_id s =
     filter (\<lambda>j. j_torneio_id j = torneio_id \<and> j_categoria_id j = categoria_id) (jogos s)"

definition inscricoes_confirmadas :: "nat \<Rightarrow> nat \<Rightarrow> store \<Rightarrow> inscricao list" where
  "inscricoes_confirmadas torneio_id categoria_id s =
     filter (\<lambda>i. i_torneio_id i = torneio_id \<and> i_categoria_id i = categoria_id
                 \<and> i_status i = ''confirmada'') (inscricoes s)"

text \<open>
  The route converter \<^verbatim>\<open><int:...>\<close> yields any natural number; the queries carry the two
  ids of the route.
\<close>

definition get_chaveamento :: "engine \<Rightarrow> nat \<Rightarrow> nat \<Rightarrow> store \<Rightarrow> response" where
  "get_chaveamento eng torneio_id categoria_id s =
     handle_get
       (if \<not> binds eng [int torneio_id, int categoria_id] then Inl OverflowError
        else
          (case first (chaveamentos_do_par torneio_id categoria_id s) of
             None \<Rightarrow> Inr (404, Error_msg (''Chaveamento n'' @ [CHR 0xE3] @ ''o encontrado''))
           | Some chaveamento \<Rightarrow>
               Inr (200, Chaveamento_jogos_body chaveamento
                           (jogos_do_par torneio_id categoria_id s))))"

text \<open>
  \<^verbatim>\<open>random.shuffle(x)\<close> of the standard library: for \<open>i\<close> from \<open>len(x) - 1\<close> down to
  \<open>1\<close>, draw \<open>j\<close> below \<open>i + 1\<close> and exchange \<open>x[i]\<close> and \<open>x[j]\<close>. The random source
  \<open>rnd\<close> gives the draw made at index \<open>i\<close>, reduced into the range.
\<close>

fun shuffle_loop :: "(nat \<Rightarrow> nat) \<Rightarrow> nat \<Rightarrow> 'a list \<Rightarrow> 'a list" where
  "shuffle_loop rnd 0 x = x"
| "shuffle_loop rnd (Suc i) x =
     (let j = rnd (Suc i) mod (Suc i + 1)
      in shuffle_loop rnd i (x[Suc i := x ! j, j := x ! Suc i]))"

definition shuffle :: "(nat \<Rightarrow> nat) \<Rightarrow> 'a list \<Rightarrow> 'a list" where
  "shuffle rnd x = shuffle_loop rnd (length x - 1) x"

text \<open>
  The loop \<^verbatim>\<open>for i in range(0, len(inscricoes), 2)\<close>: the pairs of registration ids of the
  matches it adds to the session, in order.
\<close>

function pares_loop :: "nat \<Rightarrow> inscricao list \<Rightarrow> (nat \<times> nat) list" where
  "pares_loop i inscs =
     (if i < length inscs
      then (if i + 1 < length inscs
            then [(i_id (inscs ! i), i_id (inscs ! (i + 1)))] else [])
           @ pares_loop (i + 2) inscs
      else [])"
  by pat_completeness auto
termination
  by (relation "measure (\<lambda>(i, inscs). length inscs - i)") auto

declare pares_loop.simps [simp del]

text \<open>\<^verbatim>\<open>db.session.add(Jogo(...))\<close>, keyed when the session is committed.\<close>

definition add_jogo :: "column_defaults \<Rightarrow> nat \<Rightarrow> nat \<Rightarrow> nat \<times> nat \<Rightarrow> store \<Rightarrow> store" where
  "add_jogo dflt torneio_id categoria_id p s =
     s\<lparr>jogos := jogos s @
        [\<lparr>j_id = next_id (map j_id (jogos s)),
          j_torneio_id = torneio_id,
          j_categoria_id = categoria_id,
          j_fase = ''primeira_fase'',
          j_rodada = 1,
          j_equipe1_id = fst p,
          j_equipe2_id = snd p,
          j_placar_equipe1 = None,
          j_placar_equipe2 = None,
          j_status = jogo_status_default dflt,
          j_observacoes = None\<rparr>]\<rparr>"

definition upsert_chaveamento ::
  "column_defaults \<Rightarrow> nat \<Rightarrow> nat \<Rightarrow> nat \<Rightarrow> estrutura \<Rightarrow> store \<Rightarrow> chaveamento \<times> store" where
  "upsert_chaveamento dflt now torneio_id categoria_id estr s =
     (case first (chaveamentos_do_par torneio_id categoria_id s) of
        Some chaveamento \<Rightarrow>
          (chaveamento\<lparr>c_estrutura_json := estr, c_data_atualizacao := Some now\<rparr>,
           s\<lparr>chaveamentos :=
               map (\<lambda>x. if c_id x = c_id chaveamento
                        then x\<lparr>c_estrutura_json := estr, c_data_atualizacao := Some now\<rparr>
                        else x) (chaveamentos s)\<rparr>)
      | None \<Rightarrow>
          (let chaveamento = \<lparr>c_id = next_id (map c_id (chaveamentos s)),
                               c_torneio_id = torneio_id,
                               c_categoria_id = categoria_id,
                               c_estrutura_json = estr,
                               c_data_atualizacao = chaveamento_data_atualizacao_default dflt\<rparr>
           in (chaveamento, s\<lparr>chaveamentos := chaveamentos s @ [chaveamento]\<rparr>)))"

text \<open>
  The generation handler. Its first query carries the two ids of the route, so the driver
  binds them before anything else happens. The early return for fewer than two participants
  comes before any write. Serialising the rows and the structure does not raise in this
  model, and the rows written at the commit carry only ids read from the store and the two
  route ids already bound. The bracket update and the new matches reach the store together,
  at the single commit.
\<close>

definition gerar_chaveamento ::
  "engine \<Rightarrow> column_defaults \<Rightarrow> (nat \<Rightarrow> nat) \<Rightarrow> nat \<Rightarrow> nat \<Rightarrow> nat \<Rightarrow> store
     \<Rightarrow> response \<times> store" where
  "gerar_chaveamento eng dflt rnd now torneio_id categoria_id s =
     handle s
       (if \<not> binds eng [int torneio_id, int categoria_id] then Inl OverflowError
        else
          (let inscs = inscricoes_confirmadas torneio_id categoria_id s
           in if length inscs < 2
              then Inr ((400, Error_msg (''N'' @ [CHR 0xFA]
                                         @ ''mero insuficiente de participantes'')), s)
              else
                (let inscs' = shuffle rnd inscs;
                     estr = \<lparr>e_participantes = inscs', e_fases = [],
                             e_tipo = ''eliminacao_simples''\<rparr>;
                     (chaveamento, s1) =
                        upsert_chaveamento dflt now torneio_id categoria_id estr s;
                     s2 = fold (add_jogo dflt torneio_id categoria_id) (pares_loop 0 inscs') s1
                 in Inr ((201, Chaveamento_body chaveamento), s2))))"

section \<open>Matches\<close>

text \<open>
  The request body of the result route: each score key is missing, or carries JSON
  \<^verbatim>\<open>null\<close>, or carries an integer.
\<close>

record resultado_data =
  r_placar_equipe1 :: "int option option"
  r_placar_equipe2 :: "int option option"
  r_observacoes :: "string option"

text \<open>The four assignments to the fetched row.\<close>

definition registrar_placar ::
  "resultado_data \<Rightarrow> int option \<Rightarrow> int option \<Rightarrow> jogo \<Rightarrow> jogo" where
  "registrar_placar data p1 p2 x =
     x\<lparr>j_placar_equipe1 := p1,
       j_placar_equipe2 := p2,
       j_status := ''finalizado'',
       j_observacoes := r_observacoes data\<rparr>"

text \<open>
  \<^verbatim>\<open>Jogo.query.get_or_404(jogo_id)\<close> carries the id of the route and raises
  \<open>NotFound\<close> inside the \<^verbatim>\<open>try\<close> block when no row has the key. The commit writes the
  changed columns to the rows with that key, and its statement carries the two scores.
\<close>

definition inserir_resultado ::
  "engine \<Rightarrow> resultado_data \<Rightarrow> nat \<Rightarrow> store \<Rightarrow> response \<times> store" where
  "inserir_resultado eng data jogo_id s =
     handle s
       (if \<not> binds eng [int jogo_id] then Inl OverflowError
        else
       (case first (filter (\<lambda>j. j_id j = jogo_id) (jogos s)) of
          None \<Rightarrow> Inl NotFound
        | Some jogo \<Rightarrow>
       (case r_placar_equipe1 data of None \<Rightarrow> Inl (KeyError ''placar_equipe1'')
        | Some p1 \<Rightarrow>
       (case r_placar_equipe2 data of None \<Rightarrow> Inl (KeyError ''placar_equipe2'')
        | Some p2 \<Rightarrow>
           if \<not> binds eng (presentes [p1, p2]) then Inl OverflowError
           else
             Inr ((200, Jogo_body (registrar_placar data p1 p2 jogo)),
                  s\<lparr>jogos := map (\<lambda>x. if j_id x = jogo_id
                                        then registrar_placar data p1 p2 x else x)
                                  (jogos s)\<rparr>)))))"

section \<open>Registrations\<close>

text \<open>
  The request body of \<^verbatim>\<open>POST /inscricoes\<close>: each key present or not, the ids natural
  numbers of any size.
\<close>

record inscricao_data =
  n_torneio_id :: "nat option"
  n_categoria_id :: "nat option"
  n_atleta_id :: "nat option"
  n_parceiro_id :: "nat option"
  n_nome_equipe :: "string option"

text \<open>
  The duplicate query carries the three ids of the payload; the insert carries the partner
  id as well.
\<close>

definition criar_inscricao ::
  "engine \<Rightarrow> column_defaults \<Rightarrow> inscricao_data \<Rightarrow> store \<Rightarrow> response \<times> store" where
  "criar_inscricao eng dflt data s =
     handle s
       (case n_torneio_id data of None \<Rightarrow> Inl (KeyError ''torneio_id'')
        | Some torneio_id \<Rightarrow>
       (case n_categoria_id data of None \<Rightarrow> Inl (KeyError ''categoria_id'')
        | Some categoria_id \<Rightarrow>
       (case n_atleta_id data of None \<Rightarrow> Inl (KeyError ''atleta_id'')
        | Some atleta_id \<Rightarrow>
          if \<not> binds eng [int torneio_id, int categoria_id, int atleta_id]
          then Inl OverflowError
          else if first (filter (\<lambda>i. i_torneio_id i = torneio_id
                                      \<and> i_categoria_id i = categoria_id
                                      \<and> i_atleta_id i = atleta_id) (inscricoes s)) \<noteq> None
          then Inr ((400, Error_msg (''Atleta j'' @ [CHR 0xE1]
                                     @ '' inscrito nesta categoria'')), s)
          else
            (let inscricao = \<lparr>i_id = next_id (map i_id (inscricoes s)),
                               i_torneio_id = torneio_id,
                               i_categoria_id = categoria_id,
                               i_atleta_id = atleta_id,
                               i_parceiro_id = n_parceiro_id data,
                               i_nome_equipe = n_nome_equipe data,
                               i_status = inscricao_status_default dflt\<rparr>
             in if \<not> binds eng (presentes [map_option int (n_parceiro_id data)])
                then Inl OverflowError
                else Inr ((201, Inscricao_body inscricao),
                          s\<lparr>inscricoes := inscricoes s @ [inscricao]\<rparr>)))))"

section \<open>Properties stated about the handlers\<close>

text \<open>The matches a request added: the rows of the match table past the old ones.\<close>

definition novos_jogos :: "store \<Rightarrow> store \<Rightarrow> jogo list" where
  "novos_jogos s s' = drop (length (jogos s)) (jogos s')"

text \<open>The registration ids that a list of matches refers to, in order.\<close>

definition equipes :: "jogo list \<Rightarrow> nat list" where
  "equipes js = concat (map (\<lambda>j. [j_equipe1_id j, j_equipe2_id j]) js)"

text \<open>The registrations that none of the matches refers to.\<close>

definition sem_jogo :: "inscricao list \<Rightarrow> jogo list \<Rightarrow> inscricao list" where
  "sem_jogo inscs js = filter (\<lambda>r. i_id r \<notin> set (equipes js)) inscs"

text \<open>At most one bracket row for each pair of tournament and category.\<close>

definition par_do_chaveamento :: "chaveamento \<Rightarrow> nat \<times> nat" where
  "par_do_chaveamento ch = (c_torneio_id ch, c_categoria_id ch)"

definition chaveamento_unico :: "store \<Rightarrow> bool" where
  "chaveamento_unico s = distinct (map par_do_chaveamento (chaveamentos s))"

text \<open>
  Every stored registration holds ids the driver binds: the registration handler writes a
  row only after it has bound them.
\<close>

definition inscricoes_no_intervalo :: "engine \<Rightarrow> store \<Rightarrow> bool" where
  "inscricoes_no_intervalo eng s =
     list_all (\<lambda>i. binds eng [int (i_torneio_id i), int (i_categoria_id i),
                               int (i_atleta_id i)]) (inscricoes s)"

text \<open>The athletes a response lists; none for an error body.\<close>

fun atletas_da_resposta :: "response \<Rightarrow> atleta list" where
  "atletas_da_resposta (st, Atletas_body xs n m k) = xs"
| "atletas_da_resposta (st, Ranking_body xs nome) = xs"
| "atletas_da_resposta (st, b) = []"

definition ranking_asc_nullslast :: "atleta \<Rightarrow> atleta \<Rightarrow> bool" where
  "ranking_asc_nullslast a b = ranking_le (a_ranking_posicao a) (a_ranking_posicao b)"

section \<open>A small store\<close>

definition ex_dflt :: column_defaults where
  "ex_dflt = \<lparr>atleta_ranking_posicao_default = None,
              atleta_ativo_default = True,
              inscricao_status_default = ''pendente'',
              jogo_status_default = ''agendado'',
              chaveamento_data_atualizacao_default = None\<rparr>"

definition ex_atleta :: "nat \<Rightarrow> string \<Rightarrow> int option \<Rightarrow> bool \<Rightarrow> atleta" where
  "ex_atleta k email pos ativo =
     \<lparr>a_id = k, a_nome = ''Ana'', a_email = email, a_data_nascimento = None,
      a_altura = None, a_peso = None, a_pais = None, a_foto_url = None,
      a_categoria = None, a_ranking_posicao = pos, a_ativo = ativo\<rparr>"

definition ex_inscricao :: "nat \<Rightarrow> nat \<Rightarrow> string \<Rightarrow> inscricao" where
  "ex_inscricao k categoria st =
     \<lparr>i_id = k, i_torneio_id = 1, i_categoria_id = categoria, i_atleta_id = k,
      i_parceiro_id = None, i_nome_equipe = None, i_status = st\<rparr>"

definition ex_jogo :: jogo where
  "ex_jogo = \<lparr>j_id = 1, j_torneio_id = 1, j_categoria_id = 1, j_fase = ''primeira_fase'',
              j_rodada = 1, j_equipe1_id = 1, j_equipe2_id = 2,
              j_placar_equipe1 = Some 0, j_placar_equipe2 = Some 3,
              j_status = ''em_andamento'', j_observacoes = None\<rparr>"

definition ex_chaveamento :: chaveamento where
  "ex_chaveamento =
     \<lparr>c_id = 1, c_torneio_id = 1, c_categoria_id = 1,
      c_estrutura_json = \<lparr>e_participantes = [], e_fases = [], e_tipo = ''eliminacao_simples''\<rparr>,
      c_data_atualizacao = Some 3\<rparr>"

definition ex_store :: store where
  "ex_store =
     \<lparr>atletas = [ex_atleta 1 ''a@x'' (Some 2) True, ex_atleta 2 ''b@x'' None True,
                 ex_atleta 3 ''c@x'' (Some 1) False, ex_atleta 4 ''d@x'' (Some 1) True],
      inscricoes = [ex_inscricao 1 1 ''confirmada'', ex_inscricao 2 1 ''confirmada'',
                    ex_inscricao 3 1 ''pendente'', ex_inscricao 4 1 ''confirmada'',
                    ex_inscricao 5 2 ''confirmada''],
      jogos = [ex_jogo],
      chaveamentos = [ex_chaveamento]\<rparr>"

definition ex_atleta_data :: atleta_data where
  "ex_atleta_data =
     \<lparr>d_nome = Some ''Bia'', d_email = Some ''b@x'', d_data_nascimento = None,
      d_altura = None, d_peso = None, d_pais = None, d_foto_url = None, d_categoria = None\<rparr>"

definition ex_inscricao_data :: inscricao_data where
  "ex_inscricao_data =
     \<lparr>n_torneio_id = Some 1, n_categoria_id = Some 1, n_atleta_id = Some 3,
      n_parceiro_id = None, n_nome_equipe = Some ''Trio''\<rparr>"

definition ex_resultado_data :: resultado_data where
  "ex_resultado_data =
     \<lparr>r_placar_equipe1 = Some (Some 2), r_placar_equipe2 = Some (Some 1),
      r_observacoes = None\<rparr>"


text \<open>An engine that rejects a negative limit and refuses the same integers as SQLite.\<close>

definition ex_rejeita :: engine where
  "ex_rejeita = sqlite\<lparr>negative_limit_unbounded := False\<rparr>"

text \<open>A random source whose every draw is 0.\<close>

definition ex_rnd :: "nat \<Rightarrow> nat" where
  "ex_rnd i = 0"

text \<open>Generating the bracket of tournament 1, category 1, at time 7, every draw being 0.\<close>

abbreviation ex_gerar :: "response \<times> store" where
  "ex_gerar \<equiv> gerar_chaveamento sqlite ex_dflt (\<lambda>i. 0) 7 1 1 ex_store"

section \<open>Queries\<close>

lemmas ex_defs = ex_store_def ex_dflt_def ex_atleta_def ex_inscricao_def ex_jogo_def
  ex_chaveamento_def ex_atleta_data_def ex_inscricao_data_def ex_resultado_data_def

lemma first_filter_None: "first (filter P xs) = None \<longleftrightarrow> (\<forall>x \<in> set xs. \<not> P x)"
proof -
  have "first (filter P xs) = None \<longleftrightarrow> filter P xs = []"
    by (simp add: first_def split: list.splits)
  then show ?thesis by (simp add: filter_empty_conv)
qed

lemma first_map: "first (map f xs) = map_option f (first xs)"
  by (cases xs) (simp_all add: first_def)



section \<open>What the driver binds\<close>

lemma binds_Nil: "binds eng []"
  by (simp add: binds_def)

lemma binds_Cons: "binds eng (n # ns) \<longleftrightarrow> \<not> int_overflow eng n \<and> binds eng ns"
  by (simp add: binds_def)

lemmas binds_simps = binds_Nil binds_Cons

lemma int_overflow_sqlite:
  "int_overflow sqlite n \<longleftrightarrow> n < - 9223372036854775808 \<or> 9223372036854775807 < n"
  by (simp add: sqlite_def)

lemma int_overflow_ex_rejeita:
  "int_overflow ex_rejeita n \<longleftrightarrow> n < - 9223372036854775808 \<or> 9223372036854775807 < n"
  by (simp add: ex_rejeita_def sqlite_def)

lemma inscricoes_no_intervalo_D:
  assumes "inscricoes_no_intervalo eng s" and "i \<in> set (inscricoes s)"
  shows "binds eng [int (i_torneio_id i), int (i_categoria_id i), int (i_atleta_id i)]"
  using assms by (simp add: inscricoes_no_intervalo_def list_all_iff)

text \<open>For a driver that refuses no integer the invariant holds of every store.\<close>

lemma inscricoes_no_intervalo_sem_limite:
  assumes "\<And>n. \<not> int_overflow eng n"
  shows "inscricoes_no_intervalo eng s"
  using assms by (simp add: inscricoes_no_intervalo_def binds_def list_all_iff)

lemma ex_store_no_intervalo: "inscricoes_no_intervalo sqlite ex_store"
  by (simp add: inscricoes_no_intervalo_def ex_store_def ex_inscricao_def binds_simps
        int_overflow_sqlite)

section \<open>Rejected requests leave the store as it was\<close>

text \<open>
  C2, as stated, fails: a bracket-generation request on a pair with fewer than two confirmed
  registrations is not always answered with status 400. The ids of the route are unbounded
  and go into the first query unchecked; on SQLite the driver refuses the tournament id
  \<open>2^63\<close>, which no stored registration has, and the answer is status 500.
\<close>

theorem gerar_chaveamento_id_grande:
  "length (inscricoes_confirmadas 9223372036854775808 1 ex_store) < 2
   \<and> gerar_chaveamento sqlite ex_dflt ex_rnd 7 9223372036854775808 1 ex_store
       = ((500, Error_exn OverflowError), ex_store)"
  by (simp add: gerar_chaveamento_def handle_def binds_simps int_overflow_sqlite
        inscricoes_confirmadas_def ex_store_def ex_inscricao_def)

text \<open>
  C2, amended. A bracket-generation request on a pair of tournament and category with fewer
  than two confirmed registrations returns the store it was given: no bracket row and no
  match row is created or changed. It is answered with status 400 when the driver binds the
  two ids of the route, and with status 500 when it does not.
\<close>

theorem gerar_chaveamento_poucos_participantes:
  assumes "length (inscricoes_confirmadas t c s) < 2"
  shows "snd (gerar_chaveamento eng dflt rnd now t c s) = s
       \<and> (binds eng [int t, int c] \<longrightarrow>
            gerar_chaveamento eng dflt rnd now t c s =
              ((400, Error_msg (''N'' @ [CHR 0xFA] @ ''mero insuficiente de participantes'')), s))
       \<and> (\<not> binds eng [int t, int c] \<longrightarrow>
            gerar_chaveamento eng dflt rnd now t c s = ((500, Error_exn OverflowError), s))"
  using assms by (simp add: gerar_chaveamento_def handle_def)

theorem gerar_chaveamento_poucos_participantes_witness:
  "length (inscricoes_confirmadas 1 2 ex_store) < 2
   \<and> binds sqlite [int 1, int 2]
   \<and> snd (gerar_chaveamento sqlite ex_dflt (\<lambda>i. 0) 7 1 2 ex_store) = ex_store
   \<and> gerar_chaveamento sqlite ex_dflt (\<lambda>i. 0) 7 1 2 ex_store =
       ((400, Error_msg (''N'' @ [CHR 0xFA] @ ''mero insuficiente de participantes'')), ex_store)"
proof -
  have h: "length (inscricoes_confirmadas 1 2 ex_store) < 2"
    by (simp add: inscricoes_confirmadas_def ex_defs)
  have b: "binds sqlite [int 1, int 2]"
    by (simp add: binds_simps int_overflow_sqlite)
  show ?thesis
    using h b gerar_chaveamento_poucos_participantes [OF h, of sqlite ex_dflt "\<lambda>i. 0" 7]
    by simp
qed

text \<open>
  C7. An athlete-creation request whose email is the email of a stored athlete is answered
  with status 400 and the store is returned unchanged, so no athlete record is created.
\<close>

theorem create_atleta_email_duplicado:
  assumes "d_email data = Some email" and "a \<in> set (atletas s)" and "a_email a = email"
  shows "create_atleta eng dflt strptime data s =
    ((400, Error_msg (''Email j'' @ [CHR 0xE1] @ '' cadastrado'')), s)"
proof -
  have "first (filter (\<lambda>a. a_email a = email) (atletas s)) \<noteq> None"
    unfolding first_filter_None using assms(2,3) by blast
  then show ?thesis using assms(1) by (simp add: create_atleta_def handle_def)
qed

theorem create_atleta_email_duplicado_witness:
  "d_email ex_atleta_data = Some ''b@x''
   \<and> ex_atleta 2 ''b@x'' None True \<in> set (atletas ex_store)
   \<and> a_email (ex_atleta 2 ''b@x'' None True) = ''b@x''
   \<and> create_atleta sqlite ex_dflt (\<lambda>txt. None) ex_atleta_data ex_store =
       ((400, Error_msg (''Email j'' @ [CHR 0xE1] @ '' cadastrado'')), ex_store)"
proof -
  have h1: "d_email ex_atleta_data = Some ''b@x''" by (simp add: ex_atleta_data_def)
  have h2: "ex_atleta 2 ''b@x'' None True \<in> set (atletas ex_store)" by (simp add: ex_store_def)
  have h3: "a_email (ex_atleta 2 ''b@x'' None True) = ''b@x''" by (simp add: ex_atleta_def)
  show ?thesis
    using h1 h2 h3
      create_atleta_email_duplicado [OF h1 h2 h3, of sqlite ex_dflt "\<lambda>txt. None"]
    by simp
qed

text \<open>
  C8. A registration-creation request whose tournament, category and athlete ids are those of
  a stored registration is answered with status 400 and the store is returned unchanged: no
  registration is created and the stored one is not modified. The stored registrations hold
  ids the driver binds, as every row the registration handler wrote does.
\<close>

theorem criar_inscricao_duplicada:
  assumes "n_torneio_id data = Some t" and "n_categoria_id data = Some c"
      and "n_atleta_id data = Some a"
      and "i \<in> set (inscricoes s)"
      and "i_torneio_id i = t" and "i_categoria_id i = c" and "i_atleta_id i = a"
      and "inscricoes_no_intervalo eng s"
  shows "criar_inscricao eng dflt data s =
    ((400, Error_msg (''Atleta j'' @ [CHR 0xE1] @ '' inscrito nesta categoria'')), s)"
proof -
  have b: "binds eng [int t, int c, int a]"
    using inscricoes_no_intervalo_D [OF assms(8) assms(4)] assms(5-7) by simp
  have "first (filter (\<lambda>i. i_torneio_id i = t \<and> i_categoria_id i = c \<and> i_atleta_id i = a)
          (inscricoes s)) \<noteq> None"
    unfolding first_filter_None using assms(4-7) by blast
  then show ?thesis using assms(1-3) b by (simp add: criar_inscricao_def handle_def)
qed

theorem criar_inscricao_duplicada_witness:
  "n_torneio_id ex_inscricao_data = Some 1
   \<and> n_categoria_id ex_inscricao_data = Some 1
   \<and> n_atleta_id ex_inscricao_data = Some 3
   \<and> ex_inscricao 3 1 ''pendente'' \<in> set (inscricoes ex_store)
   \<and> inscricoes_no_intervalo sqlite ex_store
   \<and> criar_inscricao sqlite ex_dflt ex_inscricao_data ex_store =
       ((400, Error_msg (''Atleta j'' @ [CHR 0xE1] @ '' inscrito nesta categoria'')), ex_store)"
proof -
  have h1: "n_torneio_id ex_inscricao_data = Some 1"
    and h2: "n_categoria_id ex_inscricao_data = Some 1"
    and h3: "n_atleta_id ex_inscricao_data = Some 3"
    by (simp_all add: ex_inscricao_data_def)
  have h4: "ex_inscricao 3 1 ''pendente'' \<in> set (inscricoes ex_store)"
    by (simp add: ex_store_def)
  have h5: "i_torneio_id (ex_inscricao 3 1 ''pendente'') = 1"
    and h6: "i_categoria_id (ex_inscricao 3 1 ''pendente'') = 1"
    and h7: "i_atleta_id (ex_inscricao 3 1 ''pendente'') = 3"
    by (simp_all add: ex_inscricao_def)
  have h8: "inscricoes_no_intervalo sqlite ex_store" by (rule ex_store_no_intervalo)
  show ?thesis
    using h1 h2 h3 h4 h8 criar_inscricao_duplicada [OF h1 h2 h3 h4 h5 h6 h7 h8, of ex_dflt]
    by simp
qed

section \<open>Store invariants\<close>

text \<open>
  The registration ids of the store are pairwise different when every row was inserted by
  the registration handler: the key of a new row is above every key in use. And the handler
  keeps the tournament, category and athlete ids of the stored registrations among those the
  driver binds, since it binds the three ids of a request before it writes the row.
\<close>

lemma fold_max_ge: "(a::nat) \<le> fold max ids a \<and> (\<forall>x \<in> set ids. x \<le> fold max ids a)"
proof (induction ids arbitrary: a)
  case Nil
  then show ?case by simp
next
  case (Cons y ys)
  have "max y a \<le> fold max ys (max y a)" using Cons.IH by blast
  then show ?case using Cons.IH [of "max y a"] by auto
qed

lemma next_id_fresh: "next_id ids \<notin> set ids"
proof
  assume "next_id ids \<in> set ids"
  then have "next_id ids \<le> fold max ids 0" using fold_max_ge by blast
  then show False by (simp add: next_id_def)
qed

lemma criar_inscricao_chave_primaria:
  assumes "distinct (map i_id (inscricoes s))"
  shows "distinct (map i_id (inscricoes (snd (criar_inscricao eng dflt data s))))"
  using assms next_id_fresh [of "map i_id (inscricoes s)"]
  by (auto simp: criar_inscricao_def handle_def Let_def split: option.splits)

lemma criar_inscricao_no_intervalo:
  assumes "inscricoes_no_intervalo eng s"
  shows "inscricoes_no_intervalo eng (snd (criar_inscricao eng dflt data s))"
  using assms
  by (auto simp: criar_inscricao_def handle_def Let_def inscricoes_no_intervalo_def
           split: option.splits)

section \<open>Athlete listings\<close>

lemma ranking_le_total: "ranking_le p q \<or> ranking_le q p"
  by (auto simp: ranking_le_def split: option.splits)

lemma ranking_le_trans: "ranking_le p q \<Longrightarrow> ranking_le q r \<Longrightarrow> ranking_le p r"
  by (auto simp: ranking_le_def split: option.splits)

lemma set_insert_by_ranking: "set (insert_by_ranking a xs) = insert a (set xs)"
  by (induction xs) auto

lemma sorted_insert_by_ranking:
  "sorted_wrt ranking_asc_nullslast xs \<Longrightarrow> sorted_wrt ranking_asc_nullslast (insert_by_ranking a xs)"
proof (induction xs)
  case Nil
  then show ?case by simp
next
  case (Cons b bs)
  show ?case
  proof (cases "ranking_le (a_ranking_posicao a) (a_ranking_posicao b)")
    case True
    then have "\<forall>x \<in> set bs. ranking_asc_nullslast a x"
      using Cons.prems ranking_le_trans by (fastforce simp: ranking_asc_nullslast_def)
    then show ?thesis using True Cons.prems by (simp add: ranking_asc_nullslast_def)
  next
    case False
    then have "ranking_asc_nullslast b a"
      using ranking_le_total by (auto simp: ranking_asc_nullslast_def)
    then show ?thesis using False Cons by (auto simp: set_insert_by_ranking)
  qed
qed

lemma set_order_by_ranking: "set (order_by_ranking xs) = set xs"
  unfolding order_by_ranking_def by (induction xs) (simp_all add: set_insert_by_ranking)

lemma sorted_order_by_ranking: "sorted_wrt ranking_asc_nullslast (order_by_ranking xs)"
  unfolding order_by_ranking_def by (induction xs) (simp_all add: sorted_insert_by_ranking)

lemma sql_limit_Inr:
  assumes "sql_limit eng n rows = Inr ys"
  shows "set ys \<subseteq> set rows"
    and "sorted_wrt R rows \<Longrightarrow> sorted_wrt R ys"
    and "0 \<le> n \<Longrightarrow> int (length ys) \<le> n"
  using assms set_take_subset [of "nat n" rows]
  by (auto simp: sql_limit_def sorted_wrt_take split: if_splits)

lemma get_ranking_Ranking_body:
  assumes "get_ranking eng categoria limit_arg s = (st, Ranking_body rows nome)"
  shows "\<exists>n. int_of_arg limit_arg 50 = Inr n \<and>
     sql_limit eng n (order_by_ranking
        (if truthy categoria then filter (\<lambda>a. a_categoria a = categoria) (filter a_ativo (atletas s))
         else filter a_ativo (atletas s))) = Inr rows"
  using assms
  by (auto simp: get_ranking_def handle_get_def Let_def split: sum.splits if_splits)

lemma get_ranking_cases:
  "(\<exists>st rows nome. get_ranking eng categoria limit_arg s = (st, Ranking_body rows nome))
   \<or> atletas_da_resposta (get_ranking eng categoria limit_arg s) = []"
proof (cases "get_ranking eng categoria limit_arg s")
  case (Pair st b)
  show ?thesis
  proof (cases b)
    case (Atletas_body xs n m k)
    have "\<And>st xs n m k. get_ranking eng categoria limit_arg s \<noteq> (st, Atletas_body xs n m k)"
      by (simp add: get_ranking_def handle_get_def Let_def split: sum.splits)
    then show ?thesis using Pair Atletas_body by blast
  qed (use Pair in simp_all)
qed

text \<open>A limit that is not negative and that the driver binds is answered with a list.\<close>

lemma get_ranking_limite_ok:
  assumes "int_of_arg limit_arg 50 = Inr n" and "0 \<le> n" and "binds eng [n]"
  shows "\<exists>rows. get_ranking eng categoria limit_arg s
            = (200, Ranking_body rows (or_else categoria ''Geral''))"
  using assms by (simp add: get_ranking_def handle_get_def sql_limit_def Let_def)

lemma set_paginate:
  assumes "paginate eng mp page per_page rows = Inr pg"
  shows "set (p_items pg) \<subseteq> set rows"
proof -
  have "\<exists>a b. p_items pg = take a (drop b rows)"
    using assms unfolding paginate_def Let_def
    by (metis Inl_Inr_False pagination.select_convs(1) sum.inject(2))
  then obtain a b where "p_items pg = take a (drop b rows)" by blast
  then show ?thesis
    using set_take_subset [of a "drop b rows"] set_drop_subset [of b rows] by auto
qed

lemma get_atletas_Atletas_body:
  assumes "get_atletas eng mp categoria pais page_arg per_page_arg s
             = (st, Atletas_body xs n m k)"
  shows "set xs \<subseteq> {a \<in> set (atletas s). a_ativo a}"
proof -
  let ?q0 = "filter a_ativo (atletas s)"
  let ?q1 = "if truthy categoria then filter (\<lambda>a. a_categoria a = categoria) ?q0 else ?q0"
  let ?q2 = "if truthy pais then filter (\<lambda>a. a_pais a = pais) ?q1 else ?q1"
  have "\<exists>page per_page pg. paginate eng mp page per_page (order_by_ranking ?q2) = Inr pg
          \<and> xs = p_items pg"
  proof (cases "int_of_arg page_arg 1")
    case (Inl e)
    then show ?thesis using assms by (simp add: get_atletas_def handle_get_def)
  next
    case page: (Inr page)
    show ?thesis
    proof (cases "int_of_arg per_page_arg 20")
      case (Inl e)
      then show ?thesis using assms page by (simp add: get_atletas_def handle_get_def)
    next
      case per_page: (Inr per_page)
      show ?thesis
      proof (cases "paginate eng mp page per_page (order_by_ranking ?q2)")
        case (Inl e)
        then show ?thesis
          using assms page per_page by (auto simp: get_atletas_def handle_get_def Let_def)
      next
        case (Inr pg)
        then have "xs = p_items pg"
          using assms page per_page by (auto simp: get_atletas_def handle_get_def Let_def)
        then show ?thesis using Inr by blast
      qed
    qed
  qed
  then obtain page per_page pg
    where pg: "paginate eng mp page per_page (order_by_ranking ?q2) = Inr pg"
      and xs: "xs = p_items pg" by blast
  have "set ?q2 \<subseteq> {a \<in> set (atletas s). a_ativo a}" by auto
  then have "set (order_by_ranking ?q2) \<subseteq> {a \<in> set (atletas s). a_ativo a}"
    by (simp only: set_order_by_ranking)
  then show ?thesis
    unfolding xs using set_paginate [OF pg] by blast
qed

lemma get_ranking_so_ativos:
  assumes "get_ranking eng categoria limit_arg s = (st, Ranking_body rows nome)"
  shows "set rows \<subseteq> {a \<in> set (atletas s). a_ativo a}"
proof -
  let ?q0 = "filter a_ativo (atletas s)"
  let ?q1 = "if truthy categoria then filter (\<lambda>a. a_categoria a = categoria) ?q0 else ?q0"
  obtain n where l: "sql_limit eng n (order_by_ranking ?q1) = Inr rows"
    using get_ranking_Ranking_body [OF assms] by blast
  have "set ?q1 \<subseteq> {a \<in> set (atletas s). a_ativo a}" by auto
  then have "set (order_by_ranking ?q1) \<subseteq> {a \<in> set (atletas s). a_ativo a}"
    by (simp only: set_order_by_ranking)
  then show ?thesis using sql_limit_Inr(1) [OF l] by blast
qed

lemmas listing_defs = get_ranking_def get_atletas_def handle_get_def int_of_arg_def truthy_def
  or_else_def order_by_ranking_def sql_limit_def paginate_def ranking_le_def Let_def
  binds_simps int_overflow_sqlite int_overflow_ex_rejeita

lemma ex_store_ranking_2:
  "get_ranking sqlite None (Parsed 2) ex_store
     = (200, Ranking_body
        [ex_atleta 4 ''d@x'' (Some 1) True, ex_atleta 1 ''a@x'' (Some 2) True] ''Geral'')"
  by (simp add: listing_defs ex_store_def ex_atleta_def)

lemma ex_store_ranking_50:
  "get_ranking ex_rejeita None Absent ex_store
     = (200, Ranking_body
        [ex_atleta 4 ''d@x'' (Some 1) True, ex_atleta 1 ''a@x'' (Some 2) True,
         ex_atleta 2 ''b@x'' None True] ''Geral'')"
  by (simp add: listing_defs ex_store_def ex_atleta_def)

lemma ex_store_atletas:
  "get_atletas sqlite None None None Absent Absent ex_store
     = (200, Atletas_body
        [ex_atleta 4 ''d@x'' (Some 1) True, ex_atleta 1 ''a@x'' (Some 2) True,
         ex_atleta 2 ''b@x'' None True] 3 1 1)"
  by (simp add: listing_defs ex_store_def ex_atleta_def)

text \<open>
  C9, as stated, fails: the length of the ranking list is not bounded by the requested limit
  for every request. The limit is passed to the database unchecked; with \<open>limit=-1\<close> on
  SQLite, which reads a negative \<open>LIMIT\<close> as no limit, the three active athletes of the
  small store are all returned.
\<close>

theorem get_ranking_limite_negativo:
  "int_of_arg (Parsed (- 1)) 50 = Inr (- 1)
   \<and> get_ranking sqlite None (Parsed (- 1)) ex_store
     = (200, Ranking_body
        [ex_atleta 4 ''d@x'' (Some 1) True, ex_atleta 1 ''a@x'' (Some 2) True,
         ex_atleta 2 ''b@x'' None True] ''Geral'')
   \<and> \<not> int (length
        [ex_atleta 4 ''d@x'' (Some 1) True, ex_atleta 1 ''a@x'' (Some 2) True,
         ex_atleta 2 ''b@x'' None True]) \<le> - 1"
  by (simp add: listing_defs sqlite_def ex_store_def ex_atleta_def)

text \<open>
  C9, amended. The athletes listed in the answer to a ranking request (with or without a
  category filter) are in ascending order of ranking position, an athlete without a position
  is followed only by athletes without a position, and, when the requested limit is not
  negative, the list is no longer than the limit.
\<close>

theorem get_ranking_ordenado:
  assumes rows: "rows = atletas_da_resposta (get_ranking eng categoria limit_arg s)"
  shows "(\<forall>i j p q. i < j \<and> j < length rows
             \<and> a_ranking_posicao (rows ! i) = Some p \<and> a_ranking_posicao (rows ! j) = Some q
            \<longrightarrow> p \<le> q)
       \<and> (\<forall>i j. i < j \<and> j < length rows \<and> a_ranking_posicao (rows ! i) = None
            \<longrightarrow> a_ranking_posicao (rows ! j) = None)
       \<and> (\<forall>n. int_of_arg limit_arg 50 = Inr n \<and> 0 \<le> n \<longrightarrow> int (length rows) \<le> n)"
proof -
  have "sorted_wrt ranking_asc_nullslast rows
      \<and> (\<forall>m. int_of_arg limit_arg 50 = Inr m \<and> 0 \<le> m \<longrightarrow> int (length rows) \<le> m)"
  proof -
    from get_ranking_cases [of eng categoria limit_arg s] show ?thesis
    proof
      assume "\<exists>st rs nome. get_ranking eng categoria limit_arg s = (st, Ranking_body rs nome)"
      then obtain st rs nome
        where r: "get_ranking eng categoria limit_arg s = (st, Ranking_body rs nome)" by blast
      obtain n qs where n: "int_of_arg limit_arg 50 = Inr n"
        and l: "sql_limit eng n (order_by_ranking qs) = Inr rs"
        using get_ranking_Ranking_body [OF r] by blast
      have rs: "rs = rows" using r rows by simp
      have "sorted_wrt ranking_asc_nullslast rs"
        using sql_limit_Inr(2) [OF l] sorted_order_by_ranking by blast
      moreover have "int (length rs) \<le> m" if "int_of_arg limit_arg 50 = Inr m" "0 \<le> m" for m
        using sql_limit_Inr(3) [OF l] that n by simp
      ultimately show ?thesis using rs by blast
    next
      assume "atletas_da_resposta (get_ranking eng categoria limit_arg s) = []"
      then show ?thesis using rows by simp
    qed
  qed
  then have srt: "sorted_wrt ranking_asc_nullslast rows"
    and c3: "\<forall>m. int_of_arg limit_arg 50 = Inr m \<and> 0 \<le> m \<longrightarrow> int (length rows) \<le> m"
    by blast+
  have le: "ranking_le (a_ranking_posicao (rows ! i)) (a_ranking_posicao (rows ! j))"
    if "i < j" "j < length rows" for i j
    using srt that by (auto simp: sorted_wrt_iff_nth_less ranking_asc_nullslast_def)
  have c1: "p \<le> q" if "i < j" "j < length rows"
     "a_ranking_posicao (rows ! i) = Some p" "a_ranking_posicao (rows ! j) = Some q" for i j p q
    using le [OF that(1,2)] that(3,4) by (simp add: ranking_le_def)
  have c2: "a_ranking_posicao (rows ! j) = None" if "i < j" "j < length rows"
     "a_ranking_posicao (rows ! i) = None" for i j
    using le [OF that(1,2)] that(3) by (simp add: ranking_le_def split: option.splits)
  show ?thesis using c1 c2 c3 by blast
qed

theorem get_ranking_ordenado_witness:
  "[ex_atleta 4 ''d@x'' (Some 1) True, ex_atleta 1 ''a@x'' (Some 2) True]
     = atletas_da_resposta (get_ranking sqlite None (Parsed 2) ex_store)
   \<and> int_of_arg (Parsed 2) 50 = Inr 2
   \<and> int (length
        [ex_atleta 4 ''d@x'' (Some 1) True, ex_atleta 1 ''a@x'' (Some 2) True]) \<le> 2"
proof -
  have e: "atletas_da_resposta (get_ranking sqlite None (Parsed 2) ex_store)
     = [ex_atleta 4 ''d@x'' (Some 1) True, ex_atleta 1 ''a@x'' (Some 2) True]"
    by (simp add: ex_store_ranking_2)
  have n: "int_of_arg (Parsed 2) 50 = Inr 2" by (simp add: int_of_arg_def)
  have "\<forall>n. int_of_arg (Parsed 2) 50 = Inr n \<and> 0 \<le> n
       \<longrightarrow> int (length
        [ex_atleta 4 ''d@x'' (Some 1) True, ex_atleta 1 ''a@x'' (Some 2) True]) \<le> n"
    using get_ranking_ordenado [OF e [symmetric]] by blast
  then have l: "int (length
        [ex_atleta 4 ''d@x'' (Some 1) True, ex_atleta 1 ''a@x'' (Some 2) True]) \<le> 2"
    using n by simp
  show ?thesis using e [symmetric] n l by blast
qed

text \<open>
  C10. Every athlete listed in an answer of the athlete-list endpoint or of the ranking
  endpoint is a stored athlete whose active flag is true, whatever the category, country,
  page, page size, limit, page-size cap and database engine are. An athlete whose flag is
  false is therefore in neither listing.
\<close>

theorem listagens_so_ativos:
  "(\<forall>a \<in> set (atletas_da_resposta (get_atletas eng mp categoria pais page_arg per_page_arg s)).
        a_ativo a \<and> a \<in> set (atletas s))
 \<and> (\<forall>a \<in> set (atletas_da_resposta (get_ranking eng categoria limit_arg s)).
        a_ativo a \<and> a \<in> set (atletas s))"
proof -
  have 1: "a_ativo a \<and> a \<in> set (atletas s)"
    if a: "a \<in> set (atletas_da_resposta (get_atletas eng mp categoria pais page_arg per_page_arg s))" for a
  proof (cases "get_atletas eng mp categoria pais page_arg per_page_arg s")
    case (Pair st b)
    show ?thesis
    proof (cases b)
      case (Atletas_body xs n m k)
      then show ?thesis
        using a Pair get_atletas_Atletas_body [of eng mp categoria pais page_arg per_page_arg s st xs n m k]
        by auto
    next
      case (Ranking_body xs nome)
      have "\<And>st xs nome. get_atletas eng mp categoria pais page_arg per_page_arg s \<noteq> (st, Ranking_body xs nome)"
        by (simp add: get_atletas_def handle_get_def Let_def split: sum.splits)
      then show ?thesis using Pair Ranking_body by blast
    qed (use a Pair in simp_all)
  qed
  have 2: "a_ativo a \<and> a \<in> set (atletas s)"
    if a: "a \<in> set (atletas_da_resposta (get_ranking eng categoria limit_arg s))" for a
  proof (cases "get_ranking eng categoria limit_arg s")
    case (Pair st b)
    show ?thesis
    proof (cases b)
      case (Ranking_body rows nome)
      then show ?thesis
        using a Pair get_ranking_so_ativos [of eng categoria limit_arg s st rows nome] by auto
    next
      case (Atletas_body xs n m k)
      have "\<And>st xs n m k. get_ranking eng categoria limit_arg s \<noteq> (st, Atletas_body xs n m k)"
        by (simp add: get_ranking_def handle_get_def Let_def split: sum.splits)
      then show ?thesis using Pair Atletas_body by blast
    qed (use a Pair in simp_all)
  qed
  show ?thesis using 1 2 by blast
qed

theorem listagens_so_ativos_witness:
  "ex_atleta 4 ''d@x'' (Some 1) True \<in> set (atletas_da_resposta (get_atletas sqlite None None None Absent Absent ex_store))
   \<and> a_ativo (ex_atleta 4 ''d@x'' (Some 1) True)
   \<and> ex_atleta 3 ''c@x'' (Some 1) False \<notin> set (atletas_da_resposta (get_atletas sqlite None None None Absent Absent ex_store))
   \<and> ex_atleta 2 ''b@x'' None True \<in> set (atletas_da_resposta (get_ranking sqlite None Absent ex_store))
   \<and> a_ativo (ex_atleta 2 ''b@x'' None True)
   \<and> ex_atleta 3 ''c@x'' (Some 1) False \<notin> set (atletas_da_resposta (get_ranking sqlite None Absent ex_store))"
proof -
  have r: "get_ranking sqlite None Absent ex_store
     = (200, Ranking_body
        [ex_atleta 4 ''d@x'' (Some 1) True, ex_atleta 1 ''a@x'' (Some 2) True,
         ex_atleta 2 ''b@x'' None True] ''Geral'')"
    by (simp add: listing_defs ex_store_def ex_atleta_def)
  have m: "ex_atleta 4 ''d@x'' (Some 1) True \<in> set (atletas_da_resposta (get_atletas sqlite None None None Absent Absent ex_store))"
    "ex_atleta 2 ''b@x'' None True \<in> set (atletas_da_resposta (get_ranking sqlite None Absent ex_store))"
    by (simp_all add: ex_store_atletas r)
  have n: "\<not> a_ativo (ex_atleta 3 ''c@x'' (Some 1) False)" by (simp add: ex_atleta_def)
  show ?thesis
    using m n listagens_so_ativos [of sqlite None None None Absent Absent ex_store Absent]
    by blast
qed

section \<open>Bracket generation\<close>

lemma mset_shuffle_loop: "i < length x \<Longrightarrow> mset (shuffle_loop rnd i x) = mset x"
proof (induction i arbitrary: x)
  case 0
  then show ?case by simp
next
  case (Suc i)
  let ?j = "rnd (Suc i) mod (Suc i + 1)"
  have j: "?j < length x" using Suc.prems
  proof -
    have "?j < Suc i + 1" by (rule mod_less_divisor) simp
    then show ?thesis using Suc.prems by linarith
  qed
  have "mset (x[Suc i := x ! ?j, ?j := x ! Suc i]) = mset x"
    using mset_swap [OF j Suc.prems] .
  moreover have "i < length (x[Suc i := x ! ?j, ?j := x ! Suc i])" using Suc.prems by simp
  ultimately show ?case using Suc.IH by (simp add: Let_def)
qed

lemma mset_shuffle: "mset (shuffle rnd x) = mset x"
proof (cases x)
  case Nil
  then show ?thesis by (simp add: shuffle_def)
next
  case (Cons a as)
  then show ?thesis by (simp add: shuffle_def mset_shuffle_loop)
qed

lemma length_pares_loop: "length (pares_loop i inscs) = (length inscs - i) div 2"
proof (induction i inscs rule: pares_loop.induct)
  case (1 i inscs)
  show ?case
  proof (cases "i < length inscs")
    case True
    then show ?thesis using 1 by (subst pares_loop.simps) (auto simp: Suc_diff_Suc)
  next
    case False
    then show ?thesis by (subst pares_loop.simps) simp
  qed
qed

lemma pares_loop_beyond: "length inscs \<le> i \<Longrightarrow> pares_loop i inscs = []"
  by (subst pares_loop.simps) simp

lemma flat_pares_loop:
  "concat (map (\<lambda>p. [fst p, snd p]) (pares_loop i inscs))
     = map i_id (take (2 * ((length inscs - i) div 2)) (drop i inscs))"
proof (induction i inscs rule: pares_loop.induct)
  case (1 i inscs)
  show ?case
  proof (cases "i + 1 < length inscs")
    case True
    then obtain k where k: "length inscs - i = Suc (Suc k)" 
      by (cases "length inscs - i") (auto, rename_tac m, case_tac m, auto)
    have d: "drop i inscs = inscs ! i # inscs ! (i + 1) # drop (i + 2) inscs"
    proof -
      have "drop i inscs = inscs ! i # drop (Suc i) inscs"
        using True by (simp add: Cons_nth_drop_Suc)
      moreover have "drop (Suc i) inscs = inscs ! Suc i # drop (Suc (Suc i)) inscs"
        using True by (simp add: Cons_nth_drop_Suc)
      ultimately show ?thesis by simp
    qed
    have k2: "length inscs - Suc (Suc i) = k" using k by simp
    show ?thesis using True 1 k
      by (subst pares_loop.simps) (simp add: d k2)
  next
    case False
    then have "(length inscs - i) div 2 = 0" by auto
    then show ?thesis using False
      by (subst pares_loop.simps) (simp add: pares_loop_beyond)
  qed
qed


lemma fold_add_jogo:
  "\<exists>novos. jogos (fold (add_jogo dflt t c) ps s) = jogos s @ novos
      \<and> map (\<lambda>j. (j_equipe1_id j, j_equipe2_id j)) novos = ps
      \<and> (\<forall>j \<in> set novos. j_fase j = ''primeira_fase'' \<and> j_rodada j = 1
             \<and> j_torneio_id j = t \<and> j_categoria_id j = c)"
proof (induction ps arbitrary: s)
  case Nil
  then show ?case by simp
next
  case (Cons p ps)
  obtain novos where n: "jogos (fold (add_jogo dflt t c) ps (add_jogo dflt t c p s))
        = jogos (add_jogo dflt t c p s) @ novos"
      "map (\<lambda>j. (j_equipe1_id j, j_equipe2_id j)) novos = ps"
      "\<forall>j \<in> set novos. j_fase j = ''primeira_fase'' \<and> j_rodada j = 1
             \<and> j_torneio_id j = t \<and> j_categoria_id j = c"
    using Cons.IH [of "add_jogo dflt t c p s"] by blast
  obtain j0 where j0: "jogos (add_jogo dflt t c p s) = jogos s @ [j0]"
     "j_equipe1_id j0 = fst p" "j_equipe2_id j0 = snd p" "j_fase j0 = ''primeira_fase''"
     "j_rodada j0 = 1" "j_torneio_id j0 = t" "j_categoria_id j0 = c"
    by (simp add: add_jogo_def)
  show ?case
    by (rule exI [of _ "j0 # novos"]) (use n j0 in simp)
qed

lemma fold_add_jogo_frame:
  "chaveamentos (fold (add_jogo dflt t c) ps s) = chaveamentos s
   \<and> inscricoes (fold (add_jogo dflt t c) ps s) = inscricoes s
   \<and> atletas (fold (add_jogo dflt t c) ps s) = atletas s"
  by (induction ps arbitrary: s) (simp_all add: add_jogo_def)

lemma upsert_chaveamento_frame:
  "upsert_chaveamento dflt now t c e s = (ch, s1) \<Longrightarrow>
     jogos s1 = jogos s \<and> inscricoes s1 = inscricoes s \<and> atletas s1 = atletas s"
  by (auto simp: upsert_chaveamento_def Let_def split: option.splits)


lemma gerar_chaveamento_ok:
  assumes "binds eng [int t, int c]" and "2 \<le> length (inscricoes_confirmadas t c s)"
  shows "gerar_chaveamento eng dflt rnd now t c s =
    (let inscs' = shuffle rnd (inscricoes_confirmadas t c s);
         estr = \<lparr>e_participantes = inscs', e_fases = [], e_tipo = ''eliminacao_simples''\<rparr>;
         u = upsert_chaveamento dflt now t c estr s
     in ((201, Chaveamento_body (fst u)),
         fold (add_jogo dflt t c) (pares_loop 0 inscs') (snd u)))"
  using assms by (simp add: gerar_chaveamento_def handle_def Let_def split_beta)

lemma gerar_chaveamento_jogos:
  assumes "binds eng [int t, int c]" and "2 \<le> length (inscricoes_confirmadas t c s)"
  shows "\<exists>novos. jogos (snd (gerar_chaveamento eng dflt rnd now t c s)) = jogos s @ novos
      \<and> map (\<lambda>j. (j_equipe1_id j, j_equipe2_id j)) novos
            = pares_loop 0 (shuffle rnd (inscricoes_confirmadas t c s))
      \<and> (\<forall>j \<in> set novos. j_fase j = ''primeira_fase'' \<and> j_rodada j = 1
             \<and> j_torneio_id j = t \<and> j_categoria_id j = c)"
proof -
  let ?sh = "shuffle rnd (inscricoes_confirmadas t c s)"
  let ?estr = "\<lparr>e_participantes = ?sh, e_fases = [], e_tipo = ''eliminacao_simples''\<rparr>"
  let ?u = "upsert_chaveamento dflt now t c ?estr s"
  have s': "snd (gerar_chaveamento eng dflt rnd now t c s)
      = fold (add_jogo dflt t c) (pares_loop 0 ?sh) (snd ?u)"
    by (simp add: gerar_chaveamento_ok [OF assms] Let_def)
  have "jogos (snd ?u) = jogos s"
    using upsert_chaveamento_frame [of dflt now t c ?estr s "fst ?u" "snd ?u"] by simp
  then show ?thesis
    using fold_add_jogo [of dflt t c "pares_loop 0 ?sh" "snd ?u"] by (simp add: s')
qed

lemma equipes_pares:
  "map (\<lambda>j. (j_equipe1_id j, j_equipe2_id j)) novos = ps \<Longrightarrow>
     equipes novos = concat (map (\<lambda>p. [fst p, snd p]) ps)"
  by (induction novos arbitrary: ps) (auto simp: equipes_def)

lemma length_sem_par:
  assumes d: "distinct (map i_id sh)" and m: "mset sh = mset inscs"
  shows "length (filter (\<lambda>r. i_id r \<notin> set (map i_id (take k sh))) inscs) = length sh - k"
proof -
  let ?P = "\<lambda>r. i_id r \<notin> set (map i_id (take k sh))"
  have "mset (filter ?P inscs) = mset (filter ?P sh)"
    by (simp only: mset_filter m)
  then have "length (filter ?P inscs) = length (filter ?P sh)"
    by (rule mset_eq_length)
  also have "filter ?P sh = filter ?P (take k sh) @ filter ?P (drop k sh)"
    by (metis append_take_drop_id filter_append)
  also have "filter ?P (take k sh) = []" by (simp add: filter_empty_conv)
  also have "filter ?P (drop k sh) = drop k sh"
  proof -
    have "distinct (map i_id (take k sh) @ map i_id (drop k sh))"
      using d by (metis append_take_drop_id map_append)
    then have "set (map i_id (take k sh)) \<inter> set (map i_id (drop k sh)) = {}" by simp
    then show ?thesis by (auto simp: filter_id_conv)
  qed
  finally show ?thesis by simp
qed

lemma gerar_chaveamento_201:
  assumes "gerar_chaveamento eng dflt rnd now t c s = ((201, b), s')"
  shows "binds eng [int t, int c] \<and> 2 \<le> length (inscricoes_confirmadas t c s)"
proof (rule ccontr)
  assume "\<not> (binds eng [int t, int c] \<and> 2 \<le> length (inscricoes_confirmadas t c s))"
  then have "fst (fst (gerar_chaveamento eng dflt rnd now t c s)) \<noteq> 201"
    by (auto simp: gerar_chaveamento_def handle_def)
  then show False using assms by simp
qed

lemma gerar_chaveamento_chaveamentos:
  assumes "binds eng [int t, int c]" and "2 \<le> length (inscricoes_confirmadas t c s)"
  shows "gerar_chaveamento eng dflt rnd now t c s = (r, s') \<Longrightarrow>
      r = (201, Chaveamento_body (fst (upsert_chaveamento dflt now t c
              \<lparr>e_participantes = shuffle rnd (inscricoes_confirmadas t c s), e_fases = [],
                e_tipo = ''eliminacao_simples''\<rparr> s)))
    \<and> chaveamentos s' = chaveamentos (snd (upsert_chaveamento dflt now t c
              \<lparr>e_participantes = shuffle rnd (inscricoes_confirmadas t c s), e_fases = [],
                e_tipo = ''eliminacao_simples''\<rparr> s))"
  by (auto simp: gerar_chaveamento_ok [OF assms] Let_def fold_add_jogo_frame)

lemma upsert_chaveamento_Some:
  assumes "first (chaveamentos_do_par t c s) = Some ch"
  shows "upsert_chaveamento dflt now t c estr s =
     (ch\<lparr>c_estrutura_json := estr, c_data_atualizacao := Some now\<rparr>,
      s\<lparr>chaveamentos :=
           map (\<lambda>x. if c_id x = c_id ch
                    then x\<lparr>c_estrutura_json := estr, c_data_atualizacao := Some now\<rparr>
                    else x) (chaveamentos s)\<rparr>)"
  using assms by (simp add: upsert_chaveamento_def)

lemma filter_par_map_upd:
  "filter (\<lambda>x. c_torneio_id x = t \<and> c_categoria_id x = c)
      (map (\<lambda>x. if Q x then x\<lparr>c_estrutura_json := e, c_data_atualizacao := d\<rparr> else x) xs)
   = map (\<lambda>x. if Q x then x\<lparr>c_estrutura_json := e, c_data_atualizacao := d\<rparr> else x)
      (filter (\<lambda>x. c_torneio_id x = t \<and> c_categoria_id x = c) xs)"
  by (induction xs) auto

lemma upsert_chaveamento_first:
  "upsert_chaveamento dflt now t c estr s = (ch', s1) \<Longrightarrow>
     first (chaveamentos_do_par t c s1) = Some ch'"
proof (cases "first (chaveamentos_do_par t c s)")
  case None
  assume u: "upsert_chaveamento dflt now t c estr s = (ch', s1)"
  from None have "chaveamentos_do_par t c s = []"
    by (simp add: first_def split: list.splits)
  then show ?thesis using u None
    by (auto simp: upsert_chaveamento_def Let_def chaveamentos_do_par_def first_def)
next
  case (Some ch)
  assume u: "upsert_chaveamento dflt now t c estr s = (ch', s1)"
  show ?thesis using u Some unfolding upsert_chaveamento_Some [OF Some]
    by (auto simp: chaveamentos_do_par_def filter_par_map_upd first_map)
qed

lemma upsert_chaveamento_unico:
  assumes "upsert_chaveamento dflt now t c estr s = (ch', s1)" and "chaveamento_unico s"
  shows "chaveamento_unico s1"
proof (cases "first (chaveamentos_do_par t c s)")
  case None
  then have "\<forall>x \<in> set (chaveamentos s). \<not> (c_torneio_id x = t \<and> c_categoria_id x = c)"
    unfolding chaveamentos_do_par_def first_filter_None .
  then have "(t, c) \<notin> set (map par_do_chaveamento (chaveamentos s))"
    by (auto simp: par_do_chaveamento_def)
  then show ?thesis using assms None
    by (auto simp: upsert_chaveamento_def Let_def chaveamento_unico_def par_do_chaveamento_def)
next
  case (Some ch)
  have "map par_do_chaveamento (chaveamentos s1) = map par_do_chaveamento (chaveamentos s)"
    using assms(1) unfolding upsert_chaveamento_Some [OF Some]
    by (auto simp: par_do_chaveamento_def)
  then show ?thesis using assms(2) by (simp add: chaveamento_unico_def)
qed

lemma gerar_chaveamento_unico:
  assumes "chaveamento_unico s"
  shows "chaveamento_unico (snd (gerar_chaveamento eng dflt rnd now t c s))"
proof (cases "binds eng [int t, int c] \<and> 2 \<le> length (inscricoes_confirmadas t c s)")
  case True
  let ?estr = "\<lparr>e_participantes = shuffle rnd (inscricoes_confirmadas t c s),
                     e_fases = [], e_tipo = ''eliminacao_simples''\<rparr>"
  let ?u = "upsert_chaveamento dflt now t c ?estr s"
  from True have b: "binds eng [int t, int c]"
    and n: "2 \<le> length (inscricoes_confirmadas t c s)" by blast+
  have "chaveamentos (snd (gerar_chaveamento eng dflt rnd now t c s)) = chaveamentos (snd ?u)"
    using gerar_chaveamento_chaveamentos [OF b n, of dflt rnd now] by (simp add: prod_eq_iff)
  moreover have "chaveamento_unico (snd ?u)"
    using upsert_chaveamento_unico [of dflt now t c ?estr s "fst ?u" "snd ?u"] assms by simp
  ultimately show ?thesis by (simp add: chaveamento_unico_def)
next
  case False
  then have "snd (gerar_chaveamento eng dflt rnd now t c s) = s"
    by (auto simp: gerar_chaveamento_def handle_def)
  then show ?thesis using assms by simp
qed

text \<open>A pair with a stored registration has ids the driver binds.\<close>

lemma inscricoes_confirmadas_binds:
  assumes "inscricoes_no_intervalo eng s" and "2 \<le> length (inscricoes_confirmadas t c s)"
  shows "binds eng [int t, int c]"
proof -
  from assms(2) obtain i where "i \<in> set (inscricoes_confirmadas t c s)"
    by (cases "inscricoes_confirmadas t c s") auto
  then have i: "i \<in> set (inscricoes s)" "i_torneio_id i = t" "i_categoria_id i = c"
    by (simp_all add: inscricoes_confirmadas_def)
  show ?thesis
    using inscricoes_no_intervalo_D [OF assms(1) i(1)] i(2,3) by (simp add: binds_simps)
qed

lemma ex_binds: "binds sqlite [int 1, int 1]"
  by (simp add: binds_simps int_overflow_sqlite)

lemma ex_store_confirmadas: "length (inscricoes_confirmadas 1 1 ex_store) = 3"
  by (simp add: inscricoes_confirmadas_def ex_store_def ex_inscricao_def)

lemma ex_shuffle:
  "shuffle (\<lambda>i. 0) (inscricoes_confirmadas 1 1 ex_store)
     = [ex_inscricao 2 1 ''confirmada'', ex_inscricao 4 1 ''confirmada'',
        ex_inscricao 1 1 ''confirmada'']"
  by (simp add: shuffle_def inscricoes_confirmadas_def ex_store_def ex_inscricao_def
        numeral_2_eq_2 Let_def)

lemma ex_pares:
  "pares_loop 0 [ex_inscricao 2 1 ''confirmada'', ex_inscricao 4 1 ''confirmada'',
        ex_inscricao 1 1 ''confirmada''] = [(2, 4)]"
  by (simp add: pares_loop.simps ex_inscricao_def)

lemma ex_novos_jogos:
  "novos_jogos ex_store (snd ex_gerar)
     = [\<lparr>j_id = 2, j_torneio_id = 1, j_categoria_id = 1, j_fase = ''primeira_fase'',
         j_rodada = 1, j_equipe1_id = 2, j_equipe2_id = 4,
         j_placar_equipe1 = None, j_placar_equipe2 = None,
         j_status = ''agendado'', j_observacoes = None\<rparr>]"
proof -
  have n: "2 \<le> length (inscricoes_confirmadas 1 1 ex_store)"
    unfolding ex_store_confirmadas by simp
  show ?thesis
    unfolding gerar_chaveamento_ok [OF ex_binds n] ex_shuffle Let_def snd_conv ex_pares
    by (simp add: novos_jogos_def upsert_chaveamento_def chaveamentos_do_par_def first_def
          add_jogo_def next_id_def ex_store_def ex_chaveamento_def ex_jogo_def ex_dflt_def)
qed

lemma ex_store_gerar_201:
  "ex_gerar = ((201, snd (fst ex_gerar)), snd ex_gerar)"
proof -
  have n: "2 \<le> length (inscricoes_confirmadas 1 1 ex_store)"
    unfolding ex_store_confirmadas by simp
  have "fst (fst ex_gerar) = 201"
    unfolding gerar_chaveamento_ok [OF ex_binds n] Let_def by simp
  then show ?thesis by (simp add: prod_eq_iff)
qed

text \<open>
  C1. With unique registration ids, stored registrations whose ids the driver binds, and at
  least two confirmed registrations for the pair, a bracket-generation request is answered with status 201 and appends to the match table as
  many rows as half the number of confirmed registrations, rounded down. Each new row has
  phase \<open>primeira_fase\<close>, round 1 and the pair's tournament and category, and refers to two
  different registration ids, both of confirmed registrations of the pair. When the number
  of confirmed registrations is odd exactly one of them is referred to by no new match; when
  it is even, none.
\<close>

theorem gerar_chaveamento_primeira_fase:
  assumes pk: "distinct (map i_id (inscricoes s))"
      and inv: "inscricoes_no_intervalo eng s"
      and n2: "2 \<le> length (inscricoes_confirmadas t c s)"
      and g: "gerar_chaveamento eng dflt rnd now t c s = (r, s')"
  shows "fst r = 201
       \<and> jogos s' = jogos s @ novos_jogos s s'
       \<and> length (novos_jogos s s') = length (inscricoes_confirmadas t c s) div 2
       \<and> (\<forall>j \<in> set (novos_jogos s s').
             j_fase j = ''primeira_fase'' \<and> j_rodada j = 1
           \<and> j_torneio_id j = t \<and> j_categoria_id j = c
           \<and> j_equipe1_id j \<noteq> j_equipe2_id j
           \<and> j_equipe1_id j \<in> i_id ` set (inscricoes_confirmadas t c s)
           \<and> j_equipe2_id j \<in> i_id ` set (inscricoes_confirmadas t c s))
       \<and> length (sem_jogo (inscricoes_confirmadas t c s) (novos_jogos s s'))
           = (if odd (length (inscricoes_confirmadas t c s)) then 1 else 0)"
proof -
  let ?inscs = "inscricoes_confirmadas t c s"
  let ?sh = "shuffle rnd ?inscs"
  let ?n = "length ?inscs"
  have bd: "binds eng [int t, int c]" using inv n2 by (rule inscricoes_confirmadas_binds)
  obtain novos where nv: "jogos s' = jogos s @ novos"
      "map (\<lambda>j. (j_equipe1_id j, j_equipe2_id j)) novos = pares_loop 0 ?sh"
      "\<forall>j \<in> set novos. j_fase j = ''primeira_fase'' \<and> j_rodada j = 1
             \<and> j_torneio_id j = t \<and> j_categoria_id j = c"
    using gerar_chaveamento_jogos [OF bd n2, of dflt rnd now] g by auto
  have nj: "novos_jogos s s' = novos" by (simp add: novos_jogos_def nv(1))
  have msh: "mset ?sh = mset ?inscs" by (rule mset_shuffle)
  have lsh: "length ?sh = ?n" using msh by (rule mset_eq_length)
  have ssh: "set ?sh = set ?inscs" using msh by (rule mset_eq_setD)
  have "distinct (map i_id ?inscs)"
    using pk by (simp add: inscricoes_confirmadas_def distinct_map_filter)
  moreover have "mset (map i_id ?sh) = mset (map i_id ?inscs)" using msh by (metis mset_map)
  ultimately have dsh: "distinct (map i_id ?sh)" using mset_eq_imp_distinct_iff by blast
  have len: "length novos = ?n div 2"
    using arg_cong [OF nv(2), of length] by (simp add: length_pares_loop lsh)
  have eq: "equipes novos = map i_id (take (2 * (?n div 2)) ?sh)"
    using equipes_pares [OF nv(2)] by (simp add: flat_pares_loop lsh)
  have deq: "distinct (equipes novos)"
    unfolding eq using dsh by (simp add: take_map [symmetric])
  have sub: "set (equipes novos) \<subseteq> i_id ` set ?inscs"
    unfolding eq using ssh set_take_subset [of "2 * (?n div 2)" ?sh] by auto
  have each: "j_equipe1_id j \<noteq> j_equipe2_id j
           \<and> j_equipe1_id j \<in> i_id ` set ?inscs
           \<and> j_equipe2_id j \<in> i_id ` set ?inscs" if "j \<in> set novos" for j
  proof -
    have "[j_equipe1_id j, j_equipe2_id j] \<in> set (map (\<lambda>j. [j_equipe1_id j, j_equipe2_id j]) novos)"
      using that by auto
    then have "distinct [j_equipe1_id j, j_equipe2_id j]"
      using deq unfolding equipes_def distinct_concat_iff by blast
    moreover have "j_equipe1_id j \<in> set (equipes novos)" "j_equipe2_id j \<in> set (equipes novos)"
      using that by (auto simp: equipes_def)
    ultimately show ?thesis using sub by auto
  qed
  have "length (sem_jogo ?inscs novos) = length ?sh - 2 * (?n div 2)"
    unfolding sem_jogo_def eq using length_sem_par [OF dsh msh] .
  then have sj: "length (sem_jogo ?inscs novos) = (if odd ?n then 1 else 0)"
    unfolding lsh by presburger
  have st: "fst r = 201"
    using gerar_chaveamento_ok [OF bd n2, of dflt rnd now] g by (simp add: Let_def)
  show ?thesis unfolding nj using st nv(1,3) len each sj by auto
qed


theorem gerar_chaveamento_primeira_fase_witness:
  "distinct (map i_id (inscricoes ex_store))
   \<and> inscricoes_no_intervalo sqlite ex_store
   \<and> 2 \<le> length (inscricoes_confirmadas 1 1 ex_store)
   \<and> fst (fst ex_gerar) = 201
   \<and> length (novos_jogos ex_store (snd ex_gerar)) = 1
   \<and> equipes (novos_jogos ex_store (snd ex_gerar)) = [2, 4]
   \<and> length (sem_jogo (inscricoes_confirmadas 1 1 ex_store)
               (novos_jogos ex_store (snd ex_gerar))) = 1"
proof -
  have h1: "distinct (map i_id (inscricoes ex_store))"
    by (simp add: ex_store_def ex_inscricao_def)
  have h2: "2 \<le> length (inscricoes_confirmadas 1 1 ex_store)"
    unfolding ex_store_confirmadas by simp
  have h3: "ex_gerar = (fst ex_gerar, snd ex_gerar)" by simp
  have e: "equipes (novos_jogos ex_store (snd ex_gerar)) = [2, 4]"
    unfolding ex_novos_jogos by (simp add: equipes_def)
  show ?thesis
    using h1 ex_store_no_intervalo h2 e
      gerar_chaveamento_primeira_fase [OF h1 ex_store_no_intervalo h2 h3]
    unfolding ex_store_confirmadas by simp
qed

text \<open>
  C3. When the pair already has a bracket row and the request succeeds, the answer is that
  row with the new structure and the request's time as its timestamp: its id and pair are
  the old ones. The bracket table keeps its ids and pairs row by row, so no second row for
  the pair appears, and a table with at most one row for each pair stays so.
\<close>

theorem gerar_chaveamento_sobrescreve:
  assumes ex: "first (chaveamentos_do_par t c s) = Some ch"
      and g: "gerar_chaveamento eng dflt rnd now t c s = ((201, b), s')"
  shows "b = Chaveamento_body
             (ch\<lparr>c_estrutura_json :=
                    \<lparr>e_participantes = shuffle rnd (inscricoes_confirmadas t c s),
                     e_fases = [], e_tipo = ''eliminacao_simples''\<rparr>,
                  c_data_atualizacao := Some now\<rparr>)
       \<and> first (chaveamentos_do_par t c s')
           = Some (ch\<lparr>c_estrutura_json :=
                    \<lparr>e_participantes = shuffle rnd (inscricoes_confirmadas t c s),
                     e_fases = [], e_tipo = ''eliminacao_simples''\<rparr>,
                  c_data_atualizacao := Some now\<rparr>)
       \<and> map c_id (chaveamentos s') = map c_id (chaveamentos s)
       \<and> map par_do_chaveamento (chaveamentos s') = map par_do_chaveamento (chaveamentos s)
       \<and> length (chaveamentos_do_par t c s') = length (chaveamentos_do_par t c s)
       \<and> (chaveamento_unico s \<longrightarrow> chaveamento_unico s')"
proof -
  let ?estr = "\<lparr>e_participantes = shuffle rnd (inscricoes_confirmadas t c s),
                     e_fases = [], e_tipo = ''eliminacao_simples''\<rparr>"
  let ?u = "upsert_chaveamento dflt now t c ?estr s"
  let ?f = "\<lambda>x. if c_id x = c_id ch
                    then x\<lparr>c_estrutura_json := ?estr, c_data_atualizacao := Some now\<rparr>
                    else x"
  have bd: "binds eng [int t, int c]" and n2: "2 \<le> length (inscricoes_confirmadas t c s)"
    using gerar_chaveamento_201 [OF g] by blast+
  have r: "b = Chaveamento_body (fst ?u)" and cs: "chaveamentos s' = chaveamentos (snd ?u)"
    using gerar_chaveamento_chaveamentos [OF bd n2 g] by simp_all
  have u: "?u = (ch\<lparr>c_estrutura_json := ?estr, c_data_atualizacao := Some now\<rparr>,
                 s\<lparr>chaveamentos := map ?f (chaveamentos s)\<rparr>)"
    by (rule upsert_chaveamento_Some [OF ex])
  have cs': "chaveamentos s' = map ?f (chaveamentos s)" using cs u by simp
  have c1: "b = Chaveamento_body (ch\<lparr>c_estrutura_json := ?estr, c_data_atualizacao := Some now\<rparr>)"
    using r u by simp
  have "first (chaveamentos_do_par t c (snd ?u)) = Some (fst ?u)"
    by (rule upsert_chaveamento_first [of dflt now t c ?estr s]) simp
  then have c2: "first (chaveamentos_do_par t c s')
       = Some (ch\<lparr>c_estrutura_json := ?estr, c_data_atualizacao := Some now\<rparr>)"
    using cs u by (simp add: chaveamentos_do_par_def)
  have c3: "map c_id (chaveamentos s') = map c_id (chaveamentos s)"
    unfolding cs' by (induction "chaveamentos s") auto
  have c4: "map par_do_chaveamento (chaveamentos s') = map par_do_chaveamento (chaveamentos s)"
    unfolding cs' by (auto simp: par_do_chaveamento_def)
  have c5: "length (chaveamentos_do_par t c s') = length (chaveamentos_do_par t c s)"
    unfolding chaveamentos_do_par_def cs' filter_par_map_upd by simp
  have c6: "chaveamento_unico s \<longrightarrow> chaveamento_unico s'"
    using gerar_chaveamento_unico [of s eng dflt rnd now t c] g by simp
  show ?thesis using c1 c2 c3 c4 c5 c6 by blast
qed

theorem gerar_chaveamento_sobrescreve_witness:
  "first (chaveamentos_do_par 1 1 ex_store) = Some ex_chaveamento
   \<and> fst (fst ex_gerar) = 201
   \<and> map c_id (chaveamentos (snd ex_gerar)) = [1]
   \<and> length (chaveamentos_do_par 1 1 (snd ex_gerar)) = 1
   \<and> chaveamento_unico (snd ex_gerar)"
proof -
  have h1: "first (chaveamentos_do_par 1 1 ex_store) = Some ex_chaveamento"
    by (simp add: chaveamentos_do_par_def ex_store_def ex_chaveamento_def first_def)
  have h2: "ex_gerar = ((201, snd (fst ex_gerar)), snd ex_gerar)"
    by (rule ex_store_gerar_201)
  have u: "chaveamento_unico ex_store"
    by (simp add: chaveamento_unico_def ex_store_def)
  have c: "map c_id (chaveamentos ex_store) = [1]"
    "length (chaveamentos_do_par 1 1 ex_store) = 1"
    by (simp_all add: chaveamentos_do_par_def ex_store_def ex_chaveamento_def)
  have "fst (fst ex_gerar) = 201" using h2 by (metis fst_conv)
  then show ?thesis
    using h1 u c gerar_chaveamento_sobrescreve [OF h1 h2] by simp
qed

text \<open>
  C4. A successful bracket-generation request keeps every row of the match table and
  appends the new ones, all of the pair; the matches of the pair are then the old ones
  followed by the new ones, and fetching the bracket of the pair afterwards answers 200
  with the bracket the generation returned and all those matches.
\<close>

theorem gerar_chaveamento_preserva_jogos:
  assumes g: "gerar_chaveamento eng dflt rnd now t c s = ((201, b), s')"
  shows "jogos s' = jogos s @ novos_jogos s s'
       \<and> jogos_do_par t c s' = jogos_do_par t c s @ novos_jogos s s'
       \<and> (\<exists>ch'. b = Chaveamento_body ch'
            \<and> get_chaveamento eng t c s'
               = (200, Chaveamento_jogos_body ch' (jogos_do_par t c s @ novos_jogos s s')))"
proof -
  let ?estr = "\<lparr>e_participantes = shuffle rnd (inscricoes_confirmadas t c s),
                     e_fases = [], e_tipo = ''eliminacao_simples''\<rparr>"
  let ?u = "upsert_chaveamento dflt now t c ?estr s"
  have bd: "binds eng [int t, int c]" and n2: "2 \<le> length (inscricoes_confirmadas t c s)"
    using gerar_chaveamento_201 [OF g] by blast+
  obtain novos where nv: "jogos s' = jogos s @ novos"
      "\<forall>j \<in> set novos. j_fase j = ''primeira_fase'' \<and> j_rodada j = 1
             \<and> j_torneio_id j = t \<and> j_categoria_id j = c"
    using gerar_chaveamento_jogos [OF bd n2, of dflt rnd now] g by auto
  have nj: "novos_jogos s s' = novos" by (simp add: novos_jogos_def nv(1))
  have "filter (\<lambda>j. j_torneio_id j = t \<and> j_categoria_id j = c) novos = novos"
    using nv(2) by (simp add: filter_id_conv)
  then have jp: "jogos_do_par t c s' = jogos_do_par t c s @ novos"
    by (simp add: jogos_do_par_def nv(1))
  have r: "b = Chaveamento_body (fst ?u)" and cs: "chaveamentos s' = chaveamentos (snd ?u)"
    using gerar_chaveamento_chaveamentos [OF bd n2 g] by simp_all
  have "first (chaveamentos_do_par t c (snd ?u)) = Some (fst ?u)"
    by (rule upsert_chaveamento_first [of dflt now t c ?estr s]) simp
  then have "first (chaveamentos_do_par t c s') = Some (fst ?u)"
    using cs by (simp add: chaveamentos_do_par_def)
  then have "get_chaveamento eng t c s'
      = (200, Chaveamento_jogos_body (fst ?u) (jogos_do_par t c s @ novos))"
    using bd by (simp add: get_chaveamento_def handle_get_def jp)
  then show ?thesis unfolding nj using nv(1) jp r by blast
qed

theorem gerar_chaveamento_preserva_jogos_witness:
  "fst (fst ex_gerar) = 201
   \<and> jogos (snd ex_gerar) = ex_jogo # novos_jogos ex_store (snd ex_gerar)
   \<and> jogos_do_par 1 1 (snd ex_gerar) = ex_jogo # novos_jogos ex_store (snd ex_gerar)"
proof -
  have h: "ex_gerar = ((201, snd (fst ex_gerar)), snd ex_gerar)"
    by (rule ex_store_gerar_201)
  have j: "jogos ex_store = [ex_jogo]" "jogos_do_par 1 1 ex_store = [ex_jogo]"
    by (simp_all add: jogos_do_par_def ex_store_def ex_jogo_def)
  have "fst (fst ex_gerar) = 201" using h by (metis fst_conv)
  then show ?thesis
    using j gerar_chaveamento_preserva_jogos [OF h] by simp
qed

section \<open>Match results\<close>




lemma inserir_resultado_NotFound:
  assumes "binds eng [int jogo_id]" and "\<forall>j \<in> set (jogos s). j_id j \<noteq> jogo_id"
  shows "inserir_resultado eng data jogo_id s = ((500, Error_exn NotFound), s)"
proof -
  have "first (filter (\<lambda>j. j_id j = jogo_id) (jogos s)) = None"
    unfolding first_filter_None using assms(2) by blast
  then show ?thesis using assms(1) by (simp add: inserir_resultado_def handle_def)
qed

text \<open>Whatever a result submission is answered with other than 200, the store is unchanged.\<close>

lemma inserir_resultado_rollback:
  assumes "inserir_resultado eng data jogo_id s = ((st, b), s')" and "st \<noteq> 200"
  shows "s' = s"
  using assms
  by (auto simp: inserir_resultado_def handle_def split: option.splits if_splits)

text \<open>
  C5. Submitting a result to a match id that no match row has: the lookup raises the
  not-found exception inside the handler's \<^verbatim>\<open>try\<close> block, the blanket
  \<^verbatim>\<open>except Exception\<close> clause catches it, and the answer is status 500 with the store
  unchanged. On the small store no match has id 9.
\<close>

theorem inserir_resultado_inexistente:
  "inserir_resultado sqlite ex_resultado_data 9 ex_store = ((500, Error_exn NotFound), ex_store)"
  by (rule inserir_resultado_NotFound)
     (simp_all add: ex_store_def ex_jogo_def binds_simps int_overflow_sqlite)




end
